theory Spec2Isabelle
  imports Main "HOL-Library.Word"
begin

section \<open>Tensors and Python errors\<close>

text \<open>
  The development follows \<^verbatim>\<open>bfvos/train.py\<close>. A two-dimensional tensor of shape
  \<open>(H, W)\<close> is the list of its \<open>H\<close> rows; a three-dimensional tensor of shape
  \<open>(D, H, W)\<close> is the list of its \<open>D\<close> channels, each an \<open>(H, W)\<close> tensor. An
  annotation mask is a byte tensor (the source reads the anchor mask through
  \<^verbatim>\<open>torch.ByteTensor\<close>); the scalar type of an embedding field is left
  open, since the code below only moves embedding values and never computes with them.
\<close>

type_synonym byte = "8 word"
type_synonym 'a tensor2 = "'a list list"
type_synonym 'a tensor3 = "'a list list list"

text \<open>A pixel-embedding batch: one \<open>D\<close>-dimensional vector per gathered pixel.\<close>

type_synonym 'a batch = "'a list list"

datatype error = RuntimeError | IndexError | TypeError | ZeroDivisionError

definition has_shape2 :: "'a tensor2 \<Rightarrow> nat \<Rightarrow> nat \<Rightarrow> bool" where
  "has_shape2 m h w = (length m = h \<and> list_all (\<lambda>row. length row = w) m)"

definition has_shape3 :: "'a tensor3 \<Rightarrow> nat \<Rightarrow> nat \<Rightarrow> nat \<Rightarrow> bool" where
  "has_shape3 e d h w = (length e = d \<and> list_all (\<lambda>ch. has_shape2 ch h w) e)"

text \<open>
  \<^verbatim>\<open>torch.cat([a, b], 1)\<close> on two-dimensional tensors joins row \<open>x\<close> of \<open>a\<close> with
  row \<open>x\<close> of \<open>b\<close>; the sizes along dimension 0 must agree, otherwise torch raises a
  \<^verbatim>\<open>RuntimeError\<close>.
\<close>

definition cat_dim1 :: "'a tensor2 \<Rightarrow> 'a tensor2 \<Rightarrow> error + 'a tensor2" where
  "cat_dim1 a b =
     (if length a = length b then Inr (map2 (@) a b) else Inl RuntimeError)"

text \<open>
  \<^verbatim>\<open>torch.cat([a, b], 2)\<close> on three-dimensional tensors joins, channel by channel,
  row \<open>x\<close> of \<open>a\<close> with row \<open>x\<close> of \<open>b\<close>; the sizes along dimensions 0 and 1 must
  agree.
\<close>

definition cat_dim2 :: "'a tensor3 \<Rightarrow> 'a tensor3 \<Rightarrow> error + 'a tensor3" where
  "cat_dim2 a b =
     (if length a = length b \<and> list_all2 (\<lambda>u v. length u = length v) a b
      then Inr (map2 (map2 (@)) a b) else Inl RuntimeError)"

text \<open>
  \<^verbatim>\<open>torch.nonzero(m)\<close>: the coordinates \<open>(x, y)\<close> of the non-zero entries of a
  two-dimensional tensor, in row-major order.
\<close>

definition nonzero_row :: "nat \<Rightarrow> byte list \<Rightarrow> (nat \<times> nat) list" where
  "nonzero_row x row = map (\<lambda>(y, v). (x, y)) (filter (\<lambda>(y, v). v \<noteq> 0) (enumerate 0 row))"

definition nonzero :: "byte tensor2 \<Rightarrow> (nat \<times> nat) list" where
  "nonzero m = concat (map (\<lambda>(x, row). nonzero_row x row) (enumerate 0 m))"

text \<open>The element-wise comparison \<^verbatim>\<open>m == 0\<close>, itself a byte tensor of 0s and 1s.\<close>

definition eq_zero :: "byte tensor2 \<Rightarrow> byte tensor2" where
  "eq_zero m = map (map (\<lambda>v. if v = 0 then 1 else 0)) m"

text \<open>
  \<^verbatim>\<open>e[:, x, y]\<close>: the vector of all channels at one spatial location. An index
  outside the tensor raises \<^verbatim>\<open>IndexError\<close>.
\<close>

definition at_xy :: "'a tensor3 \<Rightarrow> nat \<times> nat \<Rightarrow> error + 'a list" where
  "at_xy e p =
     (case p of (x, y) \<Rightarrow>
        if list_all (\<lambda>ch. x < length ch \<and> y < length (ch ! x)) e
        then Inr (map (\<lambda>ch. ch ! x ! y) e) else Inl IndexError)"

text \<open>
  The list comprehension \<^verbatim>\<open>[e[:, x, y].unsqueeze(0) for x, y in indices]\<close>, left to
  right, stopping at the first index that raises.
\<close>

fun rows_at :: "'a tensor3 \<Rightarrow> (nat \<times> nat) list \<Rightarrow> error + 'a batch" where
  "rows_at e [] = Inr []"
| "rows_at e (p # ps) =
     (case at_xy e p of
        Inl err \<Rightarrow> Inl err
      | Inr v \<Rightarrow> (case rows_at e ps of Inl err \<Rightarrow> Inl err | Inr vs \<Rightarrow> Inr (v # vs)))"

text \<open>
  \<^verbatim>\<open>torch.cat([... for x, y in indices])\<close>: the gathered vectors stacked into one
  batch. \<^verbatim>\<open>torch.cat\<close> of an empty list raises a \<^verbatim>\<open>RuntimeError\<close>.
\<close>

definition gather :: "'a tensor3 \<Rightarrow> (nat \<times> nat) list \<Rightarrow> error + 'a batch" where
  "gather e indices =
     (case rows_at e indices of
        Inl err \<Rightarrow> Inl err
      | Inr vs \<Rightarrow> if vs = [] then Inl RuntimeError else Inr vs)"

section \<open>The triplet pool builder\<close>

text \<open>
  A sample of the data loader holds the three frames and their three annotation masks
  (anchor, frame 1, frame 2): the triplet sampler yields three frames per batch, so the
  stacked tensors are triples here. The model's output is the triple of embedding
  fields.
\<close>

record 'img sample =
  image :: 'img
  annotation :: "byte tensor2 \<times> byte tensor2 \<times> byte tensor2"

record 'a triplet_pools =
  fg_embedding_a :: "'a batch"
  fg_positive_pool :: "'a batch"
  fg_negative_pool :: "'a batch"
  bg_embedding_a :: "'a batch"
  bg_positive_pool :: "'a batch"
  bg_negative_pool :: "'a batch"

text \<open>
  \<^verbatim>\<open>create_triplet_pools(sample, embeddings)\<close>, statement by statement. The branch
  on \<^verbatim>\<open>has_cuda\<close> only chooses the device of the byte tensor built from the anchor
  mask, so both branches are the same value here. \<open>Inr None\<close> is Python's
  \<^verbatim>\<open>return None\<close>, \<open>Inl err\<close> a raised exception.
\<close>

definition create_triplet_pools ::
  "'img sample \<Rightarrow> 'a tensor3 \<times> 'a tensor3 \<times> 'a tensor3 \<Rightarrow> error + 'a triplet_pools option"
where
  "create_triplet_pools sample embeddings =
     (case embeddings of (embedding_a, embedding_f1, embedding_f2) \<Rightarrow>
      case annotation sample of (annotation_a, annotation_f1, annotation_f2) \<Rightarrow>
      case cat_dim2 embedding_f1 embedding_f2 of
        Inl err \<Rightarrow> Inl err
      | Inr embedding_pool_points \<Rightarrow>
      let anchor_points = annotation_a;
          fg_anchor_indices = nonzero anchor_points;
          bg_anchor_indices = nonzero (eq_zero anchor_points)
      in
      if fg_anchor_indices = [] \<or> bg_anchor_indices = [] then Inr None
      else
      case cat_dim1 annotation_f1 annotation_f2 of
        Inl err \<Rightarrow> Inl err
      | Inr all_pool_points \<Rightarrow>
      let fg_pool_indices = nonzero all_pool_points;
          bg_pool_indices = nonzero (eq_zero all_pool_points)
      in
      if fg_pool_indices = [] \<or> bg_pool_indices = [] then Inr None
      else
      case gather embedding_a fg_anchor_indices of
        Inl err \<Rightarrow> Inl err
      | Inr fg_emb_a \<Rightarrow>
      case gather embedding_a bg_anchor_indices of
        Inl err \<Rightarrow> Inl err
      | Inr bg_emb_a \<Rightarrow>
      case gather embedding_pool_points fg_pool_indices of
        Inl err \<Rightarrow> Inl err
      | Inr fg_pos \<Rightarrow>
      case gather embedding_pool_points bg_pool_indices of
        Inl err \<Rightarrow> Inl err
      | Inr bg_pos \<Rightarrow>
        Inr (Some \<lparr>fg_embedding_a = fg_emb_a,
                   fg_positive_pool = fg_pos,
                   fg_negative_pool = bg_pos,
                   bg_embedding_a = bg_emb_a,
                   bg_positive_pool = bg_pos,
                   bg_negative_pool = fg_pos\<rparr>))"

section \<open>The network, the collaborators and the loop state\<close>

text \<open>
  What the loops see of the network: its parameters, the \<^verbatim>\<open>nn.Module\<close> training
  flag, the device it is placed on, and whether its feature-extraction layers are
  frozen.
\<close>

datatype device = Cpu | Cuda nat

record 'w net =
  weights :: 'w
  training :: bool
  on_device :: device
  feature_extraction_frozen :: bool

definition net_eval :: "'w net \<Rightarrow> 'w net" where
  "net_eval m = m\<lparr>training := False\<rparr>"

definition net_train :: "'w net \<Rightarrow> 'w net" where
  "net_train m = m\<lparr>training := True\<rparr>"

definition net_cpu :: "'w net \<Rightarrow> 'w net" where
  "net_cpu m = m\<lparr>on_device := Cpu\<rparr>"

definition net_to :: "device \<Rightarrow> 'w net \<Rightarrow> 'w net" where
  "net_to dev m = m\<lparr>on_device := dev\<rparr>"

definition state_dict :: "'w net \<Rightarrow> 'w" where
  "state_dict m = weights m"

text \<open>
  Modelled from the spec: \<^verbatim>\<open>BFVOSNet.freeze_feature_extraction\<close> lives in
  \<^verbatim>\<open>bfvos/model/network.py\<close>, which is not among the sources. The spec asks of
  the embedding producer "a way to freeze a subset of its internal parameters so only a
  trainable subset receives gradient updates"; here the call marks that subset frozen
  and touches nothing else.
\<close>

definition freeze_feature_extraction :: "'w net \<Rightarrow> 'w net" where
  "freeze_feature_extraction m = m\<lparr>feature_extraction_frozen := True\<rparr>"

text \<open>
  The external collaborators, as parameters: the network's forward pass (a pure function
  of the network and the frames, as the spec describes it), the training and validation
  loss functions, one optimisation step
  (\<^verbatim>\<open>optimizer.zero_grad(); final_loss.backward(); optimizer.step()\<close>, which
  yields the new optimizer state and the new parameters), the learning rates of the
  optimizer's parameter groups, and the reading \<^verbatim>\<open>loss_meter.value()[0]\<close> of the
  moving-average meter.
\<close>

record ('w, 'o, 'img, 'a, 'r, 'm) collaborators =
  forward :: "'w net \<Rightarrow> 'img \<Rightarrow> 'a tensor3 \<times> 'a tensor3 \<times> 'a tensor3"
  loss_fn :: "'a batch \<Rightarrow> 'a batch \<Rightarrow> 'a batch \<Rightarrow> 'r"
  val_loss :: "'a batch \<Rightarrow> 'a batch \<Rightarrow> 'a batch \<Rightarrow> 'r"
  backward_step :: "'o \<Rightarrow> 'w net \<Rightarrow> 'img sample \<Rightarrow> 'o \<times> 'w"
  param_group_lrs :: "'o \<Rightarrow> 'r list"
  meter_value :: "'m \<Rightarrow> 'r"

text \<open>
  The effects of the loops on their surroundings, in the order they happen: the debug
  trace of a skipped sample, the calls of the loss function and of the optimizer, the
  info lines with the averaged losses (their formatted numbers are left out), the scalars
  handed to the summary writer, and the checkpoints written.
\<close>

datatype tag = Train_loss | Val_loss | Train_lr_group nat

datatype ('w, 'r) event =
    Skipping_iteration nat
  | Loss_evaluated nat 'r 'r
  | Optimizer_stepped nat
  | Averages_logged nat nat
  | Add_scalar tag 'r nat
  | Checkpoint_saved nat nat 'w

record ('w, 'o, 'r, 'm) state =
  model :: "'w net"
  optimizer :: 'o
  loss_meter :: 'm
  agg_fg_loss :: 'r
  agg_bg_loss :: 'r
  events :: "('w, 'r) event list"

text \<open>
  How one pass through a loop body ends: it falls through to the next statement, it
  executes \<^verbatim>\<open>continue\<close> or \<^verbatim>\<open>break\<close>, or an exception leaves the loop.
\<close>

datatype flow = Next | Continue | Break | Raised error

text \<open>Python's \<^verbatim>\<open>a % b\<close> on integers: floored, and an error when \<open>b\<close> is zero.\<close>

definition py_mod :: "int \<Rightarrow> int \<Rightarrow> error + int" where
  "py_mod a b = (if b = 0 then Inl ZeroDivisionError else Inr (a mod b))"

section \<open>The training loop\<close>

text \<open>The logging block of \<^verbatim>\<open>train\<close> (source lines 227 to 234).\<close>

definition log_train ::
  "('w, 'o, 'img, 'a, 'r, 'm) collaborators \<Rightarrow> nat \<Rightarrow> nat \<Rightarrow>
   ('w, 'o, 'r, 'm) state \<Rightarrow> ('w, 'o, 'r, 'm) state"
where
  "log_train c epoch idx st =
     st\<lparr>events := events st @
          [Averages_logged (epoch + 1) (idx + 1),
           Add_scalar Train_loss (meter_value c (loss_meter st)) (idx + 1)] @
          map (\<lambda>(i, lr). Add_scalar (Train_lr_group i) lr (idx + 1))
              (enumerate 0 (param_group_lrs c (optimizer st)))\<rparr>"

text \<open>The checkpoint block of \<^verbatim>\<open>train\<close> (source lines 242 to 248).\<close>

definition save_checkpoint ::
  "device \<Rightarrow> nat \<Rightarrow> nat \<Rightarrow> ('w, 'o, 'r, 'm) state \<Rightarrow> ('w, 'o, 'r, 'm) state"
where
  "save_checkpoint dev epoch idx st =
     (let m1 = net_cpu (net_eval (model st));
          saved = Checkpoint_saved (epoch + 1) (idx + 1) (state_dict m1);
          m2 = net_train (net_to dev m1);
          m3 = freeze_feature_extraction m2
      in st\<lparr>model := m3, events := events st @ [saved]\<rparr>)"

text \<open>
  The body of the training loop up to and including the logging block (source lines 197
  to 239). Moving the sample to the device does not change its value.
\<close>

definition train_batch ::
  "('w, 'o, 'img, 'a, 'r::plus, 'm) collaborators \<Rightarrow> int \<Rightarrow> nat \<Rightarrow> nat \<Rightarrow>
   'img sample \<Rightarrow> ('w, 'o, 'r, 'm) state \<Rightarrow> ('w, 'o, 'r, 'm) state \<times> flow"
where
  "train_batch c log_interval epoch idx smp st =
     (let embeddings = forward c (model st) (image smp) in
      case create_triplet_pools smp embeddings of
        Inl err \<Rightarrow> (st, Raised err)
      | Inr None \<Rightarrow> (st\<lparr>events := events st @ [Skipping_iteration (idx + 1)]\<rparr>, Continue)
      | Inr (Some tp) \<Rightarrow>
          let fg_loss = loss_fn c (fg_embedding_a tp) (fg_positive_pool tp) (fg_negative_pool tp);
              bg_loss = loss_fn c (bg_embedding_a tp) (bg_positive_pool tp) (bg_negative_pool tp);
              stepped = backward_step c (optimizer st) (model st) smp;
              st1 = st\<lparr>model := (model st)\<lparr>weights := snd stepped\<rparr>,
                       optimizer := fst stepped,
                       agg_fg_loss := agg_fg_loss st + fg_loss,
                       agg_bg_loss := agg_bg_loss st + bg_loss,
                       events := events st @
                         [Loss_evaluated idx fg_loss bg_loss, Optimizer_stepped idx]\<rparr>
          in case py_mod (int idx + 1) log_interval of
               Inl err \<Rightarrow> (st1, Raised err)
             | Inr r \<Rightarrow> (if r = 0 then log_train c epoch idx st1 else st1, Next))"

definition maybe_checkpoint ::
  "device \<Rightarrow> int \<Rightarrow> nat \<Rightarrow> nat \<Rightarrow> ('w, 'o, 'r, 'm) state \<Rightarrow> ('w, 'o, 'r, 'm) state \<times> flow"
where
  "maybe_checkpoint dev checkpoint_interval epoch idx st =
     (case py_mod (int idx + 1) checkpoint_interval of
        Inl err \<Rightarrow> (st, Raised err)
      | Inr r \<Rightarrow> (if r = 0 then save_checkpoint dev epoch idx st else st, Next))"

definition train_iteration ::
  "('w, 'o, 'img, 'a, 'r::plus, 'm) collaborators \<Rightarrow> device \<Rightarrow> int \<Rightarrow> int \<Rightarrow> nat \<Rightarrow> nat \<Rightarrow>
   'img sample \<Rightarrow> ('w, 'o, 'r, 'm) state \<Rightarrow> ('w, 'o, 'r, 'm) state \<times> flow"
where
  "train_iteration c dev log_interval checkpoint_interval epoch idx smp st =
     (case train_batch c log_interval epoch idx smp st of
        (st', Next) \<Rightarrow> maybe_checkpoint dev checkpoint_interval epoch idx st'
      | (st', fl) \<Rightarrow> (st', fl))"

text \<open>
  \<^verbatim>\<open>for idx, sample in enumerate(data_loader)\<close>: the data loader is the list of the
  samples it yields in this pass. The loop ends with \<open>Next\<close> when the data source is
  exhausted.
\<close>

fun train_loop ::
  "('w, 'o, 'img, 'a, 'r::plus, 'm) collaborators \<Rightarrow> device \<Rightarrow> int \<Rightarrow> int \<Rightarrow> nat \<Rightarrow> nat \<Rightarrow>
   'img sample list \<Rightarrow> ('w, 'o, 'r, 'm) state \<Rightarrow> ('w, 'o, 'r, 'm) state \<times> flow"
where
  "train_loop c dev log_interval checkpoint_interval epoch idx [] st = (st, Next)"
| "train_loop c dev log_interval checkpoint_interval epoch idx (smp # rest) st =
     (case train_iteration c dev log_interval checkpoint_interval epoch idx smp st of
        (st', Raised err) \<Rightarrow> (st', Raised err)
      | (st', Break) \<Rightarrow> (st', Break)
      | (st', _) \<Rightarrow> train_loop c dev log_interval checkpoint_interval epoch (Suc idx) rest st')"

definition train ::
  "nat \<Rightarrow> 'img sample list \<Rightarrow> ('w, 'o, 'img, 'a, 'r::{zero,plus}, 'm) collaborators \<Rightarrow> device \<Rightarrow>
   int \<Rightarrow> int \<Rightarrow> ('w, 'o, 'r, 'm) state \<Rightarrow> ('w, 'o, 'r, 'm) state \<times> flow"
where
  "train epoch data_loader c dev log_interval checkpoint_interval st =
     train_loop c dev log_interval checkpoint_interval epoch 0 data_loader
       (st\<lparr>agg_fg_loss := 0, agg_bg_loss := 0\<rparr>)"

section \<open>The validation loop\<close>

text \<open>
  The body of the validation loop (source lines 258 to 285). The six pools are unpacked
  straight from the result of \<^verbatim>\<open>create_triplet_pools\<close>; unpacking \<^verbatim>\<open>None\<close>
  raises a \<^verbatim>\<open>TypeError\<close>.
\<close>

definition validate_iteration ::
  "('w, 'o, 'img, 'a, 'r::plus, 'm) collaborators \<Rightarrow> int \<Rightarrow> int \<Rightarrow> nat \<Rightarrow> nat \<Rightarrow>
   'img sample \<Rightarrow> ('w, 'o, 'r, 'm) state \<Rightarrow> ('w, 'o, 'r, 'm) state \<times> flow"
where
  "validate_iteration c log_interval num_val_samples_to_evaluate epoch idx smp st =
     (let embeddings = forward c (model st) (image smp) in
      case create_triplet_pools smp embeddings of
        Inl err \<Rightarrow> (st, Raised err)
      | Inr None \<Rightarrow> (st, Raised TypeError)
      | Inr (Some tp) \<Rightarrow>
          let fg_loss = val_loss c (fg_embedding_a tp) (fg_positive_pool tp) (fg_negative_pool tp);
              bg_loss = val_loss c (bg_embedding_a tp) (bg_positive_pool tp) (bg_negative_pool tp);
              st1 = st\<lparr>agg_fg_loss := agg_fg_loss st + fg_loss,
                       agg_bg_loss := agg_bg_loss st + bg_loss,
                       events := events st @ [Loss_evaluated idx fg_loss bg_loss]\<rparr>
          in case py_mod (int idx + 1) log_interval of
               Inl err \<Rightarrow> (st1, Raised err)
             | Inr r \<Rightarrow>
                 let st2 =
                   (if r = 0 \<or> int idx = num_val_samples_to_evaluate
                    then st1\<lparr>events := events st1 @
                           [Averages_logged (epoch + 1) (idx + 1),
                            Add_scalar Val_loss (meter_value c (loss_meter st1)) (idx + 1)]\<rparr>
                    else st1)
                 in if int idx = num_val_samples_to_evaluate then (st2, Break) else (st2, Next))"

fun validate_loop ::
  "('w, 'o, 'img, 'a, 'r::plus, 'm) collaborators \<Rightarrow> int \<Rightarrow> int \<Rightarrow> nat \<Rightarrow> nat \<Rightarrow>
   'img sample list \<Rightarrow> ('w, 'o, 'r, 'm) state \<Rightarrow> ('w, 'o, 'r, 'm) state \<times> flow"
where
  "validate_loop c log_interval k epoch idx [] st = (st, Next)"
| "validate_loop c log_interval k epoch idx (smp # rest) st =
     (case validate_iteration c log_interval k epoch idx smp st of
        (st', Raised err) \<Rightarrow> (st', Raised err)
      | (st', Break) \<Rightarrow> (st', Break)
      | (st', _) \<Rightarrow> validate_loop c log_interval k epoch (Suc idx) rest st')"

text \<open>
  \<^verbatim>\<open>validate\<close>: the model is put in evaluation mode (and stays there when the
  function returns), then the loop runs with fresh accumulators.
\<close>

definition validate ::
  "nat \<Rightarrow> 'img sample list \<Rightarrow> ('w, 'o, 'img, 'a, 'r::{zero,plus}, 'm) collaborators \<Rightarrow>
   int \<Rightarrow> int \<Rightarrow> ('w, 'o, 'r, 'm) state \<Rightarrow> ('w, 'o, 'r, 'm) state \<times> flow"
where
  "validate epoch data_loader c log_interval num_val_samples_to_evaluate st =
     validate_loop c log_interval num_val_samples_to_evaluate epoch 0 data_loader
       (st\<lparr>model := net_eval (model st), agg_fg_loss := 0, agg_bg_loss := 0\<rparr>)"

text \<open>The built-in default of \<^verbatim>\<open>num_val_samples_to_evaluate\<close>.\<close>

definition default_num_val_samples :: int where
  "default_num_val_samples = - 1"

section \<open>The epochs of main\<close>

text \<open>
  \<^verbatim>\<open>model.to(device).train(); model.freeze_feature_extraction()\<close> (source lines 108
  and 109), and the epoch loop (lines 120 to 125): each epoch trains, then validates.
  The two data loaders reshuffle, so each is the function from the epoch to the samples
  it yields in that epoch.
\<close>

definition prepare_model :: "device \<Rightarrow> 'w net \<Rightarrow> 'w net" where
  "prepare_model dev m = freeze_feature_extraction (net_train (net_to dev m))"

fun run_epochs ::
  "('w, 'o, 'img, 'a, 'r::{zero,plus}, 'm) collaborators \<Rightarrow> device \<Rightarrow> int \<Rightarrow> int \<Rightarrow> int \<Rightarrow>
   (nat \<Rightarrow> 'img sample list) \<Rightarrow> (nat \<Rightarrow> 'img sample list) \<Rightarrow> nat \<Rightarrow> nat \<Rightarrow>
   ('w, 'o, 'r, 'm) state \<Rightarrow> ('w, 'o, 'r, 'm) state \<times> flow"
where
  "run_epochs c dev log_interval checkpoint_interval num_val train_data val_data epoch 0 st =
     (st, Next)"
| "run_epochs c dev log_interval checkpoint_interval num_val train_data val_data epoch (Suc n) st =
     (case train epoch (train_data epoch) c dev log_interval checkpoint_interval st of
        (st1, Raised err) \<Rightarrow> (st1, Raised err)
      | (st1, _) \<Rightarrow>
          (case validate epoch (val_data epoch) c log_interval num_val st1 of
             (st2, Raised err) \<Rightarrow> (st2, Raised err)
           | (st2, _) \<Rightarrow>
               run_epochs c dev log_interval checkpoint_interval num_val train_data val_data
                 (Suc epoch) n st2))"

section \<open>What the claims measure\<close>

text \<open>
  The spec's reading of a mask: 1 is a foreground pixel, 0 a background pixel, and a mask
  holds nothing else.
\<close>

definition binary_mask :: "byte tensor2 \<Rightarrow> bool" where
  "binary_mask m = list_all (list_all (\<lambda>v. v = 0 \<or> v = 1)) m"

definition foreground_pixels :: "byte tensor2 \<Rightarrow> nat" where
  "foreground_pixels m = count_list (concat m) 1"

definition background_pixels :: "byte tensor2 \<Rightarrow> nat" where
  "background_pixels m = count_list (concat m) 0"

text \<open>
  The coordinates of an \<open>h\<close> by \<open>w\<close> grid in row-major order, and the vectors of a field
  at a list of coordinates. The last two functions follow the spec's description of the
  pooled search space: a coordinate whose column lies below the width of frame 1 is read
  from frame 1, any other from frame 2 at the column reduced by that width.
\<close>

definition coords :: "nat \<Rightarrow> nat \<Rightarrow> (nat \<times> nat) list" where
  "coords h w = concat (map (\<lambda>x. map (Pair x) [0..<w]) [0..<h])"

definition vectors_at :: "'a tensor3 \<Rightarrow> (nat \<times> nat) list \<Rightarrow> 'a batch" where
  "vectors_at e ps = map (\<lambda>(x, y). map (\<lambda>ch. ch ! x ! y) e) ps"

definition pool_mask_at :: "byte tensor2 \<Rightarrow> byte tensor2 \<Rightarrow> nat \<Rightarrow> nat \<times> nat \<Rightarrow> byte" where
  "pool_mask_at f1 f2 w1 p =
     (case p of (x, y) \<Rightarrow> if y < w1 then f1 ! x ! y else f2 ! x ! (y - w1))"

definition pool_vector_at :: "'a tensor3 \<Rightarrow> 'a tensor3 \<Rightarrow> nat \<Rightarrow> nat \<times> nat \<Rightarrow> 'a list" where
  "pool_vector_at e1 e2 w1 p =
     (case p of (x, y) \<Rightarrow>
        if y < w1 then map (\<lambda>ch. ch ! x ! y) e1 else map (\<lambda>ch. ch ! x ! (y - w1)) e2)"

text \<open>
  The indices of the samples whose losses were evaluated, and the meter readings handed
  to the summary writer under \<^verbatim>\<open>train_loss\<close> and \<^verbatim>\<open>val_loss\<close>, both read off
  the events in order. A sample yields pools when the pool builder returns the six
  batches for it.
\<close>

fun evaluated :: "('w, 'r) event list \<Rightarrow> nat list" where
  "evaluated [] = []"
| "evaluated (Loss_evaluated idx fg bg # evs) = idx # evaluated evs"
| "evaluated (ev # evs) = evaluated evs"

fun meter_scalars :: "('w, 'r) event list \<Rightarrow> 'r list" where
  "meter_scalars [] = []"
| "meter_scalars (Add_scalar Train_loss v step # evs) = v # meter_scalars evs"
| "meter_scalars (Add_scalar Val_loss v step # evs) = v # meter_scalars evs"
| "meter_scalars (ev # evs) = meter_scalars evs"

definition yields_pools ::
  "('w, 'o, 'img, 'a, 'r, 'm) collaborators \<Rightarrow> 'w net \<Rightarrow> 'img sample \<Rightarrow> bool" where
  "yields_pools c m smp =
     (case create_triplet_pools smp (forward c m (image smp)) of
        Inr (Some tp) \<Rightarrow> True
      | _ \<Rightarrow> False)"

section \<open>A small concrete run\<close>

text \<open>
  Two-by-two frames with two embedding channels. The sample has foreground and
  background in the anchor mask and in both pool masks; the degenerate sample has an
  all-background anchor mask. The collaborators are simple arithmetic stand-ins.
\<close>

definition ex_embeddings :: "int tensor3 \<times> int tensor3 \<times> int tensor3" where
  "ex_embeddings =
     ([[[10, 11], [12, 13]], [[20, 21], [22, 23]]],
      [[[30, 31], [32, 33]], [[40, 41], [42, 43]]],
      [[[50, 51], [52, 53]], [[60, 61], [62, 63]]])"

definition ex_sample :: "unit sample" where
  "ex_sample =
     \<lparr>image = (), annotation = ([[1, 0], [0, 0]], [[0, 1], [0, 0]], [[0, 0], [1, 0]])\<rparr>"

definition ex_degenerate_sample :: "unit sample" where
  "ex_degenerate_sample =
     \<lparr>image = (), annotation = ([[0, 0], [0, 0]], [[0, 1], [0, 0]], [[0, 0], [1, 0]])\<rparr>"

definition ex_pools :: "int triplet_pools" where
  "ex_pools =
     \<lparr>fg_embedding_a = [[10, 20]],
      fg_positive_pool = [[31, 41], [52, 62]],
      fg_negative_pool = [[30, 40], [50, 60], [51, 61], [32, 42], [33, 43], [53, 63]],
      bg_embedding_a = [[11, 21], [12, 22], [13, 23]],
      bg_positive_pool = [[30, 40], [50, 60], [51, 61], [32, 42], [33, 43], [53, 63]],
      bg_negative_pool = [[31, 41], [52, 62]]\<rparr>"

definition ex_collaborators :: "(nat, nat, unit, int, int, int) collaborators" where
  "ex_collaborators =
     \<lparr>forward = (\<lambda>m img. ex_embeddings),
      loss_fn = (\<lambda>a p n. int (length p)),
      val_loss = (\<lambda>a p n. int (length n)),
      backward_step = (\<lambda>opt m smp. (opt + 1, weights m + 1)),
      param_group_lrs = (\<lambda>opt. [1]),
      meter_value = (\<lambda>m. m)\<rparr>"

definition ex_state :: "(nat, nat, int, int) state" where
  "ex_state =
     \<lparr>model = prepare_model Cpu
        \<lparr>weights = 0, training = False, on_device = Cpu, feature_extraction_frozen = False\<rparr>,
      optimizer = 0, loss_meter = 7, agg_fg_loss = 0, agg_bg_loss = 0, events = []\<rparr>"

text \<open>
  The state main reaches after one full epoch (training on one sample, validation on
  one sample), and from it the state of the second epoch's first iteration just before
  its checkpoint block.
\<close>

definition ex_after_first_epoch :: "(nat, nat, int, int) state" where
  "ex_after_first_epoch =
     fst (run_epochs ex_collaborators Cpu 1 1 10 (\<lambda>epoch. [ex_sample]) (\<lambda>epoch. [ex_sample])
            0 1 ex_state)"

definition ex_pre_save_state :: "(nat, nat, int, int) state" where
  "ex_pre_save_state =
     fst (train_batch ex_collaborators 1 1 0 ex_sample
            (ex_after_first_epoch\<lparr>agg_fg_loss := 0, agg_bg_loss := 0\<rparr>))"

section \<open>Facts about tensors and the pool builder\<close>

lemma length_filter_enumerate:
  "length (filter (\<lambda>(y, v). P v) (enumerate n row)) = length (filter P row)"
  by (induction row arbitrary: n) auto

lemma length_nonzero_row: "length (nonzero_row x row) = length (filter (\<lambda>v. v \<noteq> 0) row)"
  by (simp add: nonzero_row_def length_filter_enumerate)

lemma length_concat_enumerate:
  "length (concat (map (\<lambda>(x, row). nonzero_row x row) (enumerate n m))) =
   length (filter (\<lambda>v. v \<noteq> 0) (concat m))"
  by (induction m arbitrary: n) (auto simp: length_nonzero_row)

lemma length_nonzero: "length (nonzero m) = length (filter (\<lambda>v. v \<noteq> 0) (concat m))"
  by (simp add: nonzero_def length_concat_enumerate)

lemma concat_eq_zero: "concat (eq_zero m) = map (\<lambda>v. if v = 0 then 1 else 0) (concat m)"
  by (simp add: eq_zero_def map_concat)

lemma length_nonzero_eq_zero: "length (nonzero (eq_zero m)) = count_list (concat m) 0"
proof -
  have "length (filter (\<lambda>v. v \<noteq> 0) (map (\<lambda>v. if v = 0 then 1 else (0::byte)) xs)) = count_list xs 0"
    for xs :: "byte list"
    by (induction xs) auto
  then show ?thesis by (simp add: length_nonzero concat_eq_zero)
qed

lemma length_filter_concat_map2:
  "length a = length b \<Longrightarrow>
   length (filter P (concat (map2 (@) a b))) =
   length (filter P (concat a)) + length (filter P (concat b))"
  by (induction a b rule: list_induct2) auto

lemma count_list_concat_map2:
  "length a = length b \<Longrightarrow>
   count_list (concat (map2 (@) a b)) v = count_list (concat a) v + count_list (concat b) v"
  by (induction a b rule: list_induct2) auto

lemma length_rows_at: "rows_at e ps = Inr vs \<Longrightarrow> length vs = length ps"
  by (induction ps arbitrary: vs) (auto split: sum.splits)

lemma length_gather: "gather e ps = Inr vs \<Longrightarrow> length vs = length ps"
  by (auto simp: gather_def length_rows_at split: sum.splits if_splits)

lemma binary_count:
  "list_all (\<lambda>v. v = 0 \<or> v = 1) xs \<Longrightarrow> length (filter (\<lambda>v. v \<noteq> 0) xs) = count_list xs (1::byte)"
  by (induction xs) auto

lemma cat_dim2_shapes:
  "has_shape3 e1 d h w1 \<Longrightarrow> has_shape3 e2 d h w2 \<Longrightarrow> \<exists>e. cat_dim2 e1 e2 = Inr e"
  by (auto simp: cat_dim2_def has_shape3_def has_shape2_def list_all2_conv_all_nth list_all_length)

lemma cat_dim1_shape:
  assumes "has_shape2 m1 h w1" "has_shape2 m2 h w2"
  shows "cat_dim1 m1 m2 = Inr (map2 (@) m1 m2) \<and> has_shape2 (map2 (@) m1 m2) h (w1 + w2)"
  using assms
  by (auto simp: cat_dim1_def has_shape2_def list_all_length)

lemma cat_dim1_nth:
  assumes "has_shape2 m1 h w1" "has_shape2 m2 h w2" "x < h"
  shows "map2 (@) m1 m2 ! x ! y = (if y < w1 then m1 ! x ! y else m2 ! x ! (y - w1))"
  using assms
  by (auto simp: has_shape2_def list_all_length nth_append)

lemma cat_dim2_shape:
  assumes "has_shape3 e1 d h w1" "has_shape3 e2 d h w2"
  shows "cat_dim2 e1 e2 = Inr (map2 (map2 (@)) e1 e2) \<and>
         has_shape3 (map2 (map2 (@)) e1 e2) d h (w1 + w2)"
proof -
  have len: "length e1 = d" "length e2 = d"
    using assms by (simp_all add: has_shape3_def)
  have ch1: "has_shape2 (e1 ! i) h w1" and ch2: "has_shape2 (e2 ! i) h w2" if "i < d" for i
    using assms that by (simp_all add: has_shape3_def list_all_length)
  have "list_all2 (\<lambda>u v. length u = length v) e1 e2"
    using len ch1 ch2 by (simp add: list_all2_conv_all_nth has_shape2_def)
  then have "cat_dim2 e1 e2 = Inr (map2 (map2 (@)) e1 e2)"
    using len by (simp add: cat_dim2_def)
  moreover have "has_shape3 (map2 (map2 (@)) e1 e2) d h (w1 + w2)"
    using len cat_dim1_shape[OF ch1 ch2] by (simp add: has_shape3_def list_all_length)
  ultimately show ?thesis by simp
qed

lemma at_xy_in_range:
  assumes "has_shape3 e d h w" "x < h" "y < w"
  shows "at_xy e (x, y) = Inr (map (\<lambda>ch. ch ! x ! y) e)"
  using assms
  by (auto simp: at_xy_def has_shape3_def has_shape2_def list_all_length)

lemma cat_dim2_at_xy:
  assumes "has_shape3 e1 d h w1" "has_shape3 e2 d h w2" "x < h" "y < w1 + w2"
  shows "at_xy (map2 (map2 (@)) e1 e2) (x, y) =
         (if y < w1 then at_xy e1 (x, y) else at_xy e2 (x, y - w1))"
proof -
  have sh: "has_shape3 (map2 (map2 (@)) e1 e2) d h (w1 + w2)"
    using cat_dim2_shape[OF assms(1,2)] by simp
  have len: "length e1 = d" "length e2 = d"
    using assms(1,2) by (simp_all add: has_shape3_def)
  have ch1: "has_shape2 (e1 ! i) h w1" and ch2: "has_shape2 (e2 ! i) h w2" if "i < d" for i
    using assms(1,2) that by (simp_all add: has_shape3_def list_all_length)
  have pt: "map2 (map2 (@)) e1 e2 ! i ! x ! y =
            (if y < w1 then e1 ! i ! x ! y else e2 ! i ! x ! (y - w1))" if "i < d" for i
    using cat_dim1_nth[OF ch1[OF that] ch2[OF that] assms(3), of y] that len by simp
  show ?thesis
  proof (cases "y < w1")
    case True
    have "map (\<lambda>ch. ch ! x ! y) (map2 (map2 (@)) e1 e2) = map (\<lambda>ch. ch ! x ! y) e1"
      using pt True len by (intro nth_equalityI) auto
    then show ?thesis
      using True at_xy_in_range[OF sh assms(3,4)] at_xy_in_range[OF assms(1,3) True] by simp
  next
    case False
    then have y2: "y - w1 < w2" using assms(4) by arith
    have "map (\<lambda>ch. ch ! x ! y) (map2 (map2 (@)) e1 e2) = map (\<lambda>ch. ch ! x ! (y - w1)) e2"
      using pt False len by (intro nth_equalityI) auto
    then show ?thesis
      using False at_xy_in_range[OF sh assms(3,4)] at_xy_in_range[OF assms(2,3) y2] by simp
  qed
qed

lemma count_eq_zero:
  "length (filter (\<lambda>v. v \<noteq> 0) (concat (eq_zero m))) = count_list (concat m) 0"
  using length_nonzero_eq_zero[of m] by (simp add: length_nonzero)

lemma pool_lengths:
  assumes "create_triplet_pools smp embs = Inr (Some tp)" "annotation smp = (a, f1, f2)"
  shows "length (fg_positive_pool tp) = length (filter (\<lambda>v. v \<noteq> 0) (concat f1)) + length (filter (\<lambda>v. v \<noteq> 0) (concat f2))"
    and "length (bg_positive_pool tp) = count_list (concat f1) 0 + count_list (concat f2) 0"
    and "length (fg_embedding_a tp) = length (filter (\<lambda>v. v \<noteq> 0) (concat a))"
    and "length (bg_embedding_a tp) = count_list (concat a) 0"
  using assms
  by (auto simp: create_triplet_pools_def Let_def cat_dim1_def length_nonzero
      count_eq_zero length_filter_concat_map2 count_list_concat_map2
      split: prod.splits sum.splits if_splits dest!: length_gather)

lemma enumerate_nth: "enumerate 0 xs = map (\<lambda>k. (k, xs ! k)) [0..<length xs]"
  using enumerate_map_upt[of 0 "nth xs" "length xs"] by (simp add: map_nth)

lemma nonzero_row_filter:
  "nonzero_row x row = map (Pair x) (filter (\<lambda>y. row ! y \<noteq> 0) [0..<length row])"
  by (simp add: nonzero_row_def enumerate_nth filter_map comp_def)

lemma in_coords: "p \<in> set (coords h w) \<longleftrightarrow> fst p < h \<and> snd p < w"
  by (cases p) (force simp: coords_def)

lemma nonzero_coords:
  assumes "has_shape2 m h w"
  shows "nonzero m = filter (\<lambda>(x, y). m ! x ! y \<noteq> 0) (coords h w)"
proof -
  have len: "length m = h"
    using assms by (simp add: has_shape2_def)
  have row: "length (m ! x) = w" if "x < h" for x
    using assms that by (simp add: has_shape2_def list_all_length)
  have "nonzero m = concat (map (\<lambda>x. nonzero_row x (m ! x)) [0..<h])"
    using len by (simp add: nonzero_def enumerate_nth comp_def)
  also have "\<dots> = concat (map (\<lambda>x. map (Pair x) (filter (\<lambda>y. m ! x ! y \<noteq> 0) [0..<w])) [0..<h])"
    using row by (intro arg_cong[where f = concat] map_cong) (simp_all add: nonzero_row_filter)
  also have "\<dots> = filter (\<lambda>(x, y). m ! x ! y \<noteq> 0) (coords h w)"
    by (simp add: coords_def filter_concat filter_map comp_def)
  finally show ?thesis .
qed

lemma eq_zero_shape: "has_shape2 m h w \<Longrightarrow> has_shape2 (eq_zero m) h w"
  by (simp add: has_shape2_def eq_zero_def list_all_length)

lemma eq_zero_nth:
  "has_shape2 m h w \<Longrightarrow> x < h \<Longrightarrow> y < w \<Longrightarrow> (eq_zero m ! x ! y \<noteq> 0) = (m ! x ! y = 0)"
  by (simp add: has_shape2_def eq_zero_def list_all_length)

lemma nonzero_eq_zero_coords:
  assumes "has_shape2 m h w"
  shows "nonzero (eq_zero m) = filter (\<lambda>(x, y). m ! x ! y = 0) (coords h w)"
proof -
  have "(case p of (x, y) \<Rightarrow> eq_zero m ! x ! y \<noteq> 0) = (case p of (x, y) \<Rightarrow> m ! x ! y = 0)"
    if "p \<in> set (coords h w)" for p
  proof -
    obtain x y where p: "p = (x, y)" by (cases p)
    then have "x < h" "y < w" using that by (simp_all add: in_coords)
    then show ?thesis using eq_zero_nth[OF assms, of x y] p by simp
  qed
  then show ?thesis
    unfolding nonzero_coords[OF eq_zero_shape[OF assms]] by (intro filter_cong) simp_all
qed

lemma rows_at_in_range:
  assumes "has_shape3 e d h w"
  shows "set ps \<subseteq> set (coords h w) \<Longrightarrow> rows_at e ps = Inr (vectors_at e ps)"
proof (induction ps)
  case Nil
  then show ?case by (simp add: vectors_at_def)
next
  case (Cons p ps)
  obtain x y where p: "p = (x, y)" by (cases p)
  have "x < h" "y < w" using Cons.prems p by (auto simp: in_coords)
  then have "at_xy e p = Inr (map (\<lambda>ch. ch ! x ! y) e)"
    using at_xy_in_range[OF assms] p by simp
  then show ?case using Cons p by (simp add: vectors_at_def)
qed

lemma gather_in_range:
  assumes "has_shape3 e d h w" "set ps \<subseteq> set (coords h w)" "ps \<noteq> []"
  shows "gather e ps = Inr (vectors_at e ps)"
  using rows_at_in_range[OF assms(1,2)] assms(3) by (simp add: gather_def vectors_at_def)

lemma nonzero_in_range:
  "has_shape2 m h w \<Longrightarrow> set (nonzero m) \<subseteq> set (coords h w)"
  "has_shape2 m h w \<Longrightarrow> set (nonzero (eq_zero m)) \<subseteq> set (coords h w)"
  by (auto simp: nonzero_coords nonzero_eq_zero_coords)

lemma create_triplet_pools_valid:
  assumes ann: "annotation smp = (a, f1, f2)"
    and sa: "has_shape2 a h w" and sea: "has_shape3 ea d h w"
    and s1: "has_shape2 f1 h w1" and s2: "has_shape2 f2 h w2"
    and se1: "has_shape3 e1 d h w1" and se2: "has_shape3 e2 d h w2"
    and ne: "nonzero a \<noteq> []" "nonzero (eq_zero a) \<noteq> []"
      "nonzero (map2 (@) f1 f2) \<noteq> []" "nonzero (eq_zero (map2 (@) f1 f2)) \<noteq> []"
  shows "create_triplet_pools smp (ea, e1, e2) =
     Inr (Some
       \<lparr>fg_embedding_a = vectors_at ea (nonzero a),
        fg_positive_pool = vectors_at (map2 (map2 (@)) e1 e2) (nonzero (map2 (@) f1 f2)),
        fg_negative_pool = vectors_at (map2 (map2 (@)) e1 e2) (nonzero (eq_zero (map2 (@) f1 f2))),
        bg_embedding_a = vectors_at ea (nonzero (eq_zero a)),
        bg_positive_pool = vectors_at (map2 (map2 (@)) e1 e2) (nonzero (eq_zero (map2 (@) f1 f2))),
        bg_negative_pool = vectors_at (map2 (map2 (@)) e1 e2) (nonzero (map2 (@) f1 f2))\<rparr>)"
proof -
  let ?m = "map2 (@) f1 f2" and ?e = "map2 (map2 (@)) e1 e2"
  have m: "cat_dim1 f1 f2 = Inr ?m" "has_shape2 ?m h (w1 + w2)"
    using cat_dim1_shape[OF s1 s2] by simp_all
  have e: "cat_dim2 e1 e2 = Inr ?e" "has_shape3 ?e d h (w1 + w2)"
    using cat_dim2_shape[OF se1 se2] by simp_all
  have g1: "gather ea (nonzero a) = Inr (vectors_at ea (nonzero a))"
    by (rule gather_in_range[OF sea nonzero_in_range(1)[OF sa] ne(1)])
  have g2: "gather ea (nonzero (eq_zero a)) = Inr (vectors_at ea (nonzero (eq_zero a)))"
    by (rule gather_in_range[OF sea nonzero_in_range(2)[OF sa] ne(2)])
  have g3: "gather ?e (nonzero ?m) = Inr (vectors_at ?e (nonzero ?m))"
    by (rule gather_in_range[OF e(2) nonzero_in_range(1)[OF m(2)] ne(3)])
  have g4: "gather ?e (nonzero (eq_zero ?m)) = Inr (vectors_at ?e (nonzero (eq_zero ?m)))"
    by (rule gather_in_range[OF e(2) nonzero_in_range(2)[OF m(2)] ne(4)])
  show ?thesis
    using ann ne by (simp add: create_triplet_pools_def Let_def m(1) e(1) g1 g2 g3 g4)
qed

lemma pool_vectors_decompose:
  assumes s1: "has_shape2 f1 h w1" and s2: "has_shape2 f2 h w2"
    and se1: "has_shape3 e1 d h w1" and se2: "has_shape3 e2 d h w2"
  shows "vectors_at (map2 (map2 (@)) e1 e2) (nonzero (map2 (@) f1 f2)) =
           map (pool_vector_at e1 e2 w1)
             (filter (\<lambda>p. pool_mask_at f1 f2 w1 p \<noteq> 0) (coords h (w1 + w2)))"
    and "vectors_at (map2 (map2 (@)) e1 e2) (nonzero (eq_zero (map2 (@) f1 f2))) =
           map (pool_vector_at e1 e2 w1)
             (filter (\<lambda>p. pool_mask_at f1 f2 w1 p = 0) (coords h (w1 + w2)))"
proof -
  let ?m = "map2 (@) f1 f2" and ?e = "map2 (map2 (@)) e1 e2"
  have m: "has_shape2 ?m h (w1 + w2)" using cat_dim1_shape[OF s1 s2] by simp
  have e: "has_shape3 ?e d h (w1 + w2)" using cat_dim2_shape[OF se1 se2] by simp
  have mk: "?m ! x ! y = pool_mask_at f1 f2 w1 (x, y)" if "x < h" for x y
    using cat_dim1_nth[OF s1 s2 that, of y] by (simp add: pool_mask_at_def)
  have vec: "map (\<lambda>ch. ch ! x ! y) ?e = pool_vector_at e1 e2 w1 (x, y)"
    if "x < h" "y < w1 + w2" for x y
  proof -
    have "Inr (map (\<lambda>ch. ch ! x ! y) ?e) = at_xy ?e (x, y)"
      using at_xy_in_range[OF e that] by simp
    also have "\<dots> = (if y < w1 then at_xy e1 (x, y) else at_xy e2 (x, y - w1))"
      by (rule cat_dim2_at_xy[OF se1 se2 that])
    also have "\<dots> = Inr (pool_vector_at e1 e2 w1 (x, y))"
      using at_xy_in_range[OF se1 that(1), of y] at_xy_in_range[OF se2 that(1), of "y - w1"] that(2)
      by (auto simp: pool_vector_at_def)
    finally show ?thesis by simp
  qed
  have f1: "filter (\<lambda>(x, y). ?m ! x ! y \<noteq> 0) (coords h (w1 + w2)) =
            filter (\<lambda>p. pool_mask_at f1 f2 w1 p \<noteq> 0) (coords h (w1 + w2))"
    using mk by (intro filter_cong) (auto simp: in_coords)
  have f0: "filter (\<lambda>(x, y). ?m ! x ! y = 0) (coords h (w1 + w2)) =
            filter (\<lambda>p. pool_mask_at f1 f2 w1 p = 0) (coords h (w1 + w2))"
    using mk by (intro filter_cong) (auto simp: in_coords)
  have mp: "vectors_at ?e (filter P (coords h (w1 + w2))) =
            map (pool_vector_at e1 e2 w1) (filter P (coords h (w1 + w2)))" for P
    unfolding vectors_at_def using vec by (intro map_cong) (auto simp: in_coords)
  show "vectors_at ?e (nonzero ?m) =
           map (pool_vector_at e1 e2 w1)
             (filter (\<lambda>p. pool_mask_at f1 f2 w1 p \<noteq> 0) (coords h (w1 + w2)))"
    by (simp add: nonzero_coords[OF m] f1 mp)
  show "vectors_at ?e (nonzero (eq_zero ?m)) =
           map (pool_vector_at e1 e2 w1)
             (filter (\<lambda>p. pool_mask_at f1 f2 w1 p = 0) (coords h (w1 + w2)))"
    by (simp add: nonzero_eq_zero_coords[OF m] f0 mp)
qed

section \<open>Facts about the loops\<close>

lemma evaluated_append: "evaluated (xs @ ys) = evaluated xs @ evaluated ys"
  by (induction xs rule: evaluated.induct) simp_all

lemma meter_scalars_append: "meter_scalars (xs @ ys) = meter_scalars xs @ meter_scalars ys"
  by (induction xs rule: meter_scalars.induct) simp_all

lemma meter_scalars_lr:
  "meter_scalars (map (\<lambda>(i, lr). Add_scalar (Train_lr_group i) lr step) ps) = []"
  by (induction ps) auto

lemma validate_iteration_ok:
  assumes "yields_pools c (model st) smp" "log_interval \<noteq> 0"
  shows "snd (validate_iteration c log_interval k epoch idx smp st) =
           (if int idx = k then Break else Next)"
    and "model (fst (validate_iteration c log_interval k epoch idx smp st)) = model st"
    and "evaluated (events (fst (validate_iteration c log_interval k epoch idx smp st))) =
           evaluated (events st) @ [idx]"
  using assms
  by (auto simp: validate_iteration_def yields_pools_def py_mod_def Let_def evaluated_append
      split: sum.splits option.splits)

lemma validate_iteration_no_break:
  "int idx \<noteq> k \<Longrightarrow> snd (validate_iteration c log_interval k epoch idx smp st) \<noteq> Break"
  by (auto simp: validate_iteration_def py_mod_def Let_def split: sum.splits option.splits)

lemma validate_loop_cap:
  assumes "log_interval \<noteq> 0"
  shows "int idx \<le> k \<Longrightarrow> k < int idx + int (length ss) \<Longrightarrow>
         list_all (yields_pools c (model st)) (take (nat k + 1 - idx) ss) \<Longrightarrow>
         snd (validate_loop c log_interval k epoch idx ss st) = Break \<and>
         evaluated (events (fst (validate_loop c log_interval k epoch idx ss st))) =
           evaluated (events st) @ [idx..<nat k + 1]"
proof (induction ss arbitrary: idx st)
  case Nil
  then show ?case by simp
next
  case (Cons smp rest)
  obtain st' fl where it: "validate_iteration c log_interval k epoch idx smp st = (st', fl)"
    by (cases "validate_iteration c log_interval k epoch idx smp st")
  have pos: "nat k + 1 - idx = Suc (nat k - idx)"
    using Cons.prems(1) by linarith
  have yp: "yields_pools c (model st) smp"
    using Cons.prems(3) pos by simp
  note ok = validate_iteration_ok[OF yp assms, of k epoch idx]
  have fl: "fl = (if int idx = k then Break else Next)"
    and m': "model st' = model st"
    and ev': "evaluated (events st') = evaluated (events st) @ [idx]"
    using ok it by simp_all
  show ?case
  proof (cases "int idx = k")
    case True
    then have "nat k = idx" by simp
    then have "[idx..<nat k + 1] = [idx]" by simp
    then show ?thesis using True it fl ev' by simp
  next
    case False
    then have lt: "int (Suc idx) \<le> k" using Cons.prems(1) by simp
    have bound: "k < int (Suc idx) + int (length rest)" using Cons.prems(2) by simp
    have "nat k + 1 - Suc idx = nat k - idx" by simp
    then have rest: "list_all (yields_pools c (model st')) (take (nat k + 1 - Suc idx) rest)"
      using Cons.prems(3) pos m' by simp
    have split: "[idx..<nat k + 1] = idx # [Suc idx..<nat k + 1]"
      using lt by (simp add: upt_rec)
    show ?thesis
      using Cons.IH[OF lt bound rest] it fl False ev' split by simp
  qed
qed

lemma validate_loop_no_break:
  "k < int idx \<or> int idx + int (length ss) \<le> k \<Longrightarrow>
   snd (validate_loop c log_interval k epoch idx ss st) \<noteq> Break"
proof (induction ss arbitrary: idx st)
  case Nil
  then show ?case by simp
next
  case (Cons smp rest)
  obtain st' fl where it: "validate_iteration c log_interval k epoch idx smp st = (st', fl)"
    by (cases "validate_iteration c log_interval k epoch idx smp st")
  have "int idx \<noteq> k" using Cons.prems by auto
  then have nb: "fl \<noteq> Break" using validate_iteration_no_break[of idx k c log_interval epoch smp st] it by simp
  have "k < int (Suc idx) \<or> int (Suc idx) + int (length rest) \<le> k" using Cons.prems by auto
  from Cons.IH[OF this] show ?case using it nb by (cases fl) simp_all
qed

lemma validate_loop_exhausts:
  assumes "log_interval \<noteq> 0"
  shows "k < int idx \<or> int idx + int (length ss) \<le> k \<Longrightarrow>
         list_all (yields_pools c (model st)) ss \<Longrightarrow>
         snd (validate_loop c log_interval k epoch idx ss st) = Next \<and>
         evaluated (events (fst (validate_loop c log_interval k epoch idx ss st))) =
           evaluated (events st) @ [idx..<idx + length ss]"
proof (induction ss arbitrary: idx st)
  case Nil
  then show ?case by simp
next
  case (Cons smp rest)
  obtain st' fl where it: "validate_iteration c log_interval k epoch idx smp st = (st', fl)"
    by (cases "validate_iteration c log_interval k epoch idx smp st")
  have ne: "int idx \<noteq> k" using Cons.prems(1) by auto
  have yp: "yields_pools c (model st) smp" using Cons.prems(2) by simp
  note ok = validate_iteration_ok[OF yp assms, of k epoch idx]
  have fl: "fl = Next" and m': "model st' = model st"
    and ev': "evaluated (events st') = evaluated (events st) @ [idx]"
    using ok it ne by simp_all
  have range: "k < int (Suc idx) \<or> int (Suc idx) + int (length rest) \<le> k"
    using Cons.prems(1) by auto
  have rest: "list_all (yields_pools c (model st')) rest" using Cons.prems(2) m' by simp
  have split: "[idx..<idx + length (smp # rest)] = idx # [Suc idx..<Suc idx + length rest]"
    by (simp add: upt_rec)
  show ?case
    using Cons.IH[OF range rest] it fl ev' split by simp
qed

lemma log_train_meter:
  "loss_meter (log_train c epoch idx st) = loss_meter st"
  "meter_scalars (events (log_train c epoch idx st)) =
     meter_scalars (events st) @ [meter_value c (loss_meter st)]"
  by (simp_all add: log_train_def meter_scalars_append meter_scalars_lr)

lemma save_checkpoint_meter:
  "loss_meter (save_checkpoint dev epoch idx st) = loss_meter st"
  "meter_scalars (events (save_checkpoint dev epoch idx st)) = meter_scalars (events st)"
  by (simp_all add: save_checkpoint_def Let_def meter_scalars_append)

lemma train_batch_meter:
  assumes "loss_meter st = m0" "set (meter_scalars (events st)) \<subseteq> insert (meter_value c m0) S"
  shows "loss_meter (fst (train_batch c log_interval epoch idx smp st)) = m0 \<and>
         set (meter_scalars (events (fst (train_batch c log_interval epoch idx smp st))))
           \<subseteq> insert (meter_value c m0) S"
  using assms
  by (auto simp: train_batch_def Let_def py_mod_def log_train_meter meter_scalars_append
      split: sum.splits option.splits)

lemma maybe_checkpoint_meter:
  assumes "loss_meter st = m0" "set (meter_scalars (events st)) \<subseteq> insert (meter_value c m0) S"
  shows "loss_meter (fst (maybe_checkpoint dev checkpoint_interval epoch idx st)) = m0 \<and>
         set (meter_scalars (events (fst (maybe_checkpoint dev checkpoint_interval epoch idx st))))
           \<subseteq> insert (meter_value c m0) S"
  using assms
  by (auto simp: maybe_checkpoint_def py_mod_def save_checkpoint_meter split: sum.splits)

lemma train_iteration_meter:
  assumes "loss_meter st = m0" "set (meter_scalars (events st)) \<subseteq> insert (meter_value c m0) S"
  shows "loss_meter (fst (train_iteration c dev log_interval checkpoint_interval epoch idx smp st)) = m0 \<and>
         set (meter_scalars (events (fst (train_iteration c dev log_interval checkpoint_interval epoch idx smp st))))
           \<subseteq> insert (meter_value c m0) S"
proof -
  obtain st' fl where tb: "train_batch c log_interval epoch idx smp st = (st', fl)"
    by (cases "train_batch c log_interval epoch idx smp st")
  have inv: "loss_meter st' = m0 \<and> set (meter_scalars (events st')) \<subseteq> insert (meter_value c m0) S"
    using train_batch_meter[OF assms, of log_interval epoch idx smp] tb by simp
  show ?thesis
  proof (cases "fl = Next")
    case True
    then show ?thesis
      using tb inv maybe_checkpoint_meter[of st' m0 c S dev checkpoint_interval epoch idx]
      by (simp add: train_iteration_def)
  next
    case False
    then show ?thesis using tb inv by (cases fl) (simp_all add: train_iteration_def)
  qed
qed

lemma train_loop_meter:
  "loss_meter st = m0 \<Longrightarrow> set (meter_scalars (events st)) \<subseteq> insert (meter_value c m0) S \<Longrightarrow>
   loss_meter (fst (train_loop c dev log_interval checkpoint_interval epoch idx ss st)) = m0 \<and>
   set (meter_scalars (events (fst (train_loop c dev log_interval checkpoint_interval epoch idx ss st))))
     \<subseteq> insert (meter_value c m0) S"
proof (induction ss arbitrary: idx st)
  case Nil
  then show ?case by simp
next
  case (Cons smp rest)
  obtain st' fl where it:
    "train_iteration c dev log_interval checkpoint_interval epoch idx smp st = (st', fl)"
    by (cases "train_iteration c dev log_interval checkpoint_interval epoch idx smp st")
  have inv: "loss_meter st' = m0" "set (meter_scalars (events st')) \<subseteq> insert (meter_value c m0) S"
    using train_iteration_meter[OF Cons.prems, of dev log_interval checkpoint_interval epoch idx smp] it
    by simp_all
  show ?case
    using Cons.IH[OF inv] it inv by (cases fl) simp_all
qed

lemma validate_iteration_meter:
  assumes "loss_meter st = m0" "set (meter_scalars (events st)) \<subseteq> insert (meter_value c m0) S"
  shows "loss_meter (fst (validate_iteration c log_interval k epoch idx smp st)) = m0 \<and>
         set (meter_scalars (events (fst (validate_iteration c log_interval k epoch idx smp st))))
           \<subseteq> insert (meter_value c m0) S"
  using assms
  by (auto simp: validate_iteration_def Let_def py_mod_def meter_scalars_append
      split: sum.splits option.splits)

lemma validate_loop_meter:
  "loss_meter st = m0 \<Longrightarrow> set (meter_scalars (events st)) \<subseteq> insert (meter_value c m0) S \<Longrightarrow>
   loss_meter (fst (validate_loop c log_interval k epoch idx ss st)) = m0 \<and>
   set (meter_scalars (events (fst (validate_loop c log_interval k epoch idx ss st))))
     \<subseteq> insert (meter_value c m0) S"
proof (induction ss arbitrary: idx st)
  case Nil
  then show ?case by simp
next
  case (Cons smp rest)
  obtain st' fl where it: "validate_iteration c log_interval k epoch idx smp st = (st', fl)"
    by (cases "validate_iteration c log_interval k epoch idx smp st")
  have inv: "loss_meter st' = m0" "set (meter_scalars (events st')) \<subseteq> insert (meter_value c m0) S"
    using validate_iteration_meter[OF Cons.prems, of log_interval k epoch idx smp] it
    by simp_all
  show ?case
    using Cons.IH[OF inv] it inv by (cases fl) simp_all
qed

lemma train_meter:
  "loss_meter (fst (train epoch ss c dev log_interval checkpoint_interval st)) = loss_meter st \<and>
   set (meter_scalars (events (fst (train epoch ss c dev log_interval checkpoint_interval st))))
     \<subseteq> insert (meter_value c (loss_meter st)) (set (meter_scalars (events st)))"
  unfolding train_def
  by (rule train_loop_meter) auto

lemma validate_meter:
  "loss_meter (fst (validate epoch ss c log_interval k st)) = loss_meter st \<and>
   set (meter_scalars (events (fst (validate epoch ss c log_interval k st))))
     \<subseteq> insert (meter_value c (loss_meter st)) (set (meter_scalars (events st)))"
  unfolding validate_def
  by (rule validate_loop_meter) auto

lemma run_epochs_meter:
  "loss_meter (fst (run_epochs c dev li ci k td vd epoch n st)) = loss_meter st \<and>
   set (meter_scalars (events (fst (run_epochs c dev li ci k td vd epoch n st))))
     \<subseteq> insert (meter_value c (loss_meter st)) (set (meter_scalars (events st)))"
proof (induction n arbitrary: epoch st)
  case 0
  then show ?case by auto
next
  case (Suc n)
  obtain st1 f1 where tr: "train epoch (td epoch) c dev li ci st = (st1, f1)"
    by (cases "train epoch (td epoch) c dev li ci st")
  obtain st2 f2 where va: "validate epoch (vd epoch) c li k st1 = (st2, f2)"
    by (cases "validate epoch (vd epoch) c li k st1")
  have i1: "loss_meter st1 = loss_meter st"
    "set (meter_scalars (events st1)) \<subseteq> insert (meter_value c (loss_meter st)) (set (meter_scalars (events st)))"
    using train_meter[of epoch "td epoch" c dev li ci st] tr by simp_all
  have i2: "loss_meter st2 = loss_meter st"
    "set (meter_scalars (events st2)) \<subseteq> insert (meter_value c (loss_meter st)) (set (meter_scalars (events st)))"
    using validate_meter[of epoch "vd epoch" c li k st1] va i1 by auto
  have i3: "loss_meter (fst (run_epochs c dev li ci k td vd (Suc epoch) n st2)) = loss_meter st"
    "set (meter_scalars (events (fst (run_epochs c dev li ci k td vd (Suc epoch) n st2))))
       \<subseteq> insert (meter_value c (loss_meter st)) (set (meter_scalars (events st)))"
    using Suc.IH[of "Suc epoch" st2] i2 by auto
  show ?case
  proof (cases "\<exists>err. f1 = Raised err")
    case True
    then show ?thesis using tr i1 by auto
  next
    case False
    then have a: "run_epochs c dev li ci k td vd epoch (Suc n) st =
      (case validate epoch (vd epoch) c li k st1 of
             (st2, Raised err) \<Rightarrow> (st2, Raised err)
           | (st2, _) \<Rightarrow> run_epochs c dev li ci k td vd (Suc epoch) n st2)"
      using tr by (cases f1) simp_all
    show ?thesis
    proof (cases "\<exists>err. f2 = Raised err")
      case True
      then show ?thesis using a va i2 by auto
    next
      case False
      then have "run_epochs c dev li ci k td vd epoch (Suc n) st =
                 run_epochs c dev li ci k td vd (Suc epoch) n st2"
        using a va by (cases f2) simp_all
      then show ?thesis using i3 by simp
    qed
  qed
qed

lemma skip_iteration:
  assumes "create_triplet_pools smp (forward c (model st) (image smp)) = Inr None"
  shows "train_iteration c dev log_interval checkpoint_interval epoch idx smp st =
           (st\<lparr>events := events st @ [Skipping_iteration (idx + 1)]\<rparr>, Continue)"
  using assms by (simp add: train_iteration_def train_batch_def)

lemma save_checkpoint_model:
  "model (save_checkpoint dev epoch idx st) =
     \<lparr>weights = weights (model st), training = True, on_device = dev,
      feature_extraction_frozen = True\<rparr>"
  by (simp add: save_checkpoint_def Let_def net_cpu_def net_eval_def net_train_def net_to_def
      freeze_feature_extraction_def)

section \<open>The concrete run, evaluated\<close>

lemma ex_sample_pools: "create_triplet_pools ex_sample ex_embeddings = Inr (Some ex_pools)"
  by code_simp

lemma ex_degenerate_pools: "create_triplet_pools ex_degenerate_sample ex_embeddings = Inr None"
  by code_simp

lemma ex_sample_yields:
  "yields_pools ex_collaborators (net_eval (model ex_state)) ex_sample"
  by code_simp

lemma ex_sample_valid:
  "annotation ex_sample = ([[1, 0], [0, 0]], [[0, 1], [0, 0]], [[0, 0], [1, 0]])"
  "has_shape2 [[1, 0], [0, 0::byte]] 2 2"
  "has_shape2 [[0, 1], [0, 0::byte]] 2 2"
  "has_shape2 [[0, 0], [1, 0::byte]] 2 2"
  "has_shape3 [[[10, 11], [12, 13]], [[20, 21], [22, 23::int]]] 2 2 2"
  "has_shape3 [[[30, 31], [32, 33]], [[40, 41], [42, 43::int]]] 2 2 2"
  "has_shape3 [[[50, 51], [52, 53]], [[60, 61], [62, 63::int]]] 2 2 2"
  "nonzero [[1, 0], [0, 0]] \<noteq> []"
  "nonzero (eq_zero [[1, 0], [0, 0]]) \<noteq> []"
  "nonzero (map2 (@) [[0, 1], [0, 0]] [[0, 0], [1, 0]]) \<noteq> []"
  "nonzero (eq_zero (map2 (@) [[0, 1], [0, 0]] [[0, 0], [1, 0]])) \<noteq> []"
  "binary_mask [[1, 0], [0, 0]]"
  "binary_mask [[0, 1], [0, 0]]"
  "binary_mask [[0, 0], [1, 0]]"
  by (simp_all add: ex_sample_def has_shape2_def has_shape3_def nonzero_def nonzero_row_def
      eq_zero_def binary_mask_def)

lemma validate_iteration_degenerate:
  assumes "create_triplet_pools smp (forward c (model st) (image smp)) = Inr None"
  shows "validate_iteration c log_interval k epoch idx smp st = (st, Raised TypeError)"
  using assms by (simp add: validate_iteration_def)

section \<open>The claims\<close>

text \<open>
  Claim C1: a validation sample with an empty index set is handled as in training, that
  is, skipped without an exception leaving the loop. The code does not do this. On the
  degenerate sample of the concrete run the pool builder returns \<open>None\<close>; the training
  loop skips the sample and goes on to evaluate the next one, while the validation loop
  unpacks the \<open>None\<close> and leaves with a \<^verbatim>\<open>TypeError\<close> before any loss is
  evaluated.
\<close>

theorem validate_degenerate_sample_raises:
  "create_triplet_pools ex_degenerate_sample
     (forward ex_collaborators (model ex_state) (image ex_degenerate_sample)) = Inr None \<and>
   snd (train 0 [ex_degenerate_sample, ex_sample] ex_collaborators Cpu 10 10 ex_state) = Next \<and>
   evaluated (events (fst (train 0 [ex_degenerate_sample, ex_sample] ex_collaborators Cpu 10 10
     ex_state))) = [1] \<and>
   validate 0 [ex_degenerate_sample, ex_sample] ex_collaborators 10 10 ex_state =
     (ex_state\<lparr>model := net_eval (model ex_state)\<rparr>, Raised TypeError)"
  by code_simp

text \<open>
  Claim C2: whenever one of the four index sets (foreground anchor, background anchor,
  foreground pool, background pool) is empty, \<open>create_triplet_pools\<close> returns \<open>None\<close>
  and raises nothing. The masks of frame 1 and frame 2 are slices of one stacked tensor
  and the two embedding fields are outputs of one forward pass, so each pair has one
  shape.
\<close>

theorem pool_emptiness_guard:
  assumes "annotation smp = (a, f1, f2)"
    and "has_shape2 f1 h w1" "has_shape2 f2 h w2"
    and "has_shape3 e1 d h' w1'" "has_shape3 e2 d h' w2'"
    and "nonzero a = [] \<or> nonzero (eq_zero a) = [] \<or>
         nonzero (map2 (@) f1 f2) = [] \<or> nonzero (eq_zero (map2 (@) f1 f2)) = []"
  shows "create_triplet_pools smp (ea, e1, e2) = Inr None"
proof -
  obtain ep where ep: "cat_dim2 e1 e2 = Inr ep"
    using cat_dim2_shapes assms(4,5) by blast
  have len: "length f1 = length f2"
    using assms(2,3) by (simp add: has_shape2_def)
  show ?thesis
    using assms(1,6) ep len
    by (auto simp: create_triplet_pools_def cat_dim1_def Let_def)
qed

text \<open>The same at the concrete run.\<close>

theorem pool_emptiness_guard_witness:
  "create_triplet_pools ex_degenerate_sample ex_embeddings = Inr None"
  using pool_emptiness_guard[of ex_degenerate_sample "[[0, 0], [0, 0]]" "[[0, 1], [0, 0]]"
      "[[0, 0], [1, 0]]" 2 2 2 "[[[30, 31], [32, 33]], [[40, 41], [42, 43]]]" 2 2 2
      "[[[50, 51], [52, 53]], [[60, 61], [62, 63]]]" 2
      "[[[10, 11], [12, 13]], [[20, 21], [22, 23]]]"]
  by (simp add: ex_degenerate_sample_def ex_embeddings_def has_shape2_def has_shape3_def
      nonzero_def nonzero_row_def)

text \<open>
  Claim C3: for every input on which \<open>create_triplet_pools\<close> returns pools, the
  foreground negative pool is the background positive pool and the background negative
  pool is the foreground positive pool.
\<close>

theorem role_swap_symmetry:
  "create_triplet_pools smp embs = Inr (Some tp) \<Longrightarrow>
   fg_negative_pool tp = bg_positive_pool tp \<and> bg_negative_pool tp = fg_positive_pool tp"
  by (auto simp: create_triplet_pools_def Let_def split: prod.splits sum.splits if_splits)

text \<open>The same at the concrete run.\<close>

theorem role_swap_symmetry_witness:
  "create_triplet_pools ex_sample ex_embeddings = Inr (Some ex_pools) \<and>
   fg_negative_pool ex_pools = bg_positive_pool ex_pools \<and>
   bg_negative_pool ex_pools = fg_positive_pool ex_pools"
  using role_swap_symmetry[OF ex_sample_pools] ex_sample_pools by simp

text \<open>
  Claim C4: on every valid input, that is, frames of one shape with binary masks and four
  non-empty index sets, \<open>create_triplet_pools\<close> returns pools, and among them the
  foreground positive pool has as many vectors as frames 1 and 2 have foreground pixels
  (value 1), the background positive pool as many as they have background pixels, and
  the two anchor batches as many as the anchor mask has foreground and background
  pixels. (Without the restriction to binary masks the foreground counts are those of
  the non-zero entries: \<open>pool_lengths\<close>.)
\<close>

theorem pool_cardinality:
  assumes "annotation smp = (a, f1, f2)"
    and "has_shape2 a h w" "has_shape3 ea d h w"
    and "has_shape2 f1 h w1" "has_shape2 f2 h w2"
    and "has_shape3 e1 d h w1" "has_shape3 e2 d h w2"
    and "binary_mask a" "binary_mask f1" "binary_mask f2"
    and "nonzero a \<noteq> []" "nonzero (eq_zero a) \<noteq> []"
      "nonzero (map2 (@) f1 f2) \<noteq> []" "nonzero (eq_zero (map2 (@) f1 f2)) \<noteq> []"
  shows "\<exists>tp. create_triplet_pools smp (ea, e1, e2) = Inr (Some tp) \<and>
           length (fg_positive_pool tp) = foreground_pixels f1 + foreground_pixels f2 \<and>
           length (bg_positive_pool tp) = background_pixels f1 + background_pixels f2 \<and>
           length (fg_embedding_a tp) = foreground_pixels a \<and>
           length (bg_embedding_a tp) = background_pixels a"
proof -
  obtain tp where tp: "create_triplet_pools smp (ea, e1, e2) = Inr (Some tp)"
    using create_triplet_pools_valid[OF assms(1-7) assms(11-14)] by blast
  have fg: "length (filter (\<lambda>v. v \<noteq> 0) (concat m)) = foreground_pixels m" if "binary_mask m" for m
  proof -
    have "list_all (\<lambda>v. v = 0 \<or> v = 1) (concat m)"
      using that by (induction m) (auto simp: binary_mask_def)
    then show ?thesis by (simp add: binary_count foreground_pixels_def)
  qed
  have "length (fg_positive_pool tp) = foreground_pixels f1 + foreground_pixels f2 \<and>
        length (bg_positive_pool tp) = background_pixels f1 + background_pixels f2 \<and>
        length (fg_embedding_a tp) = foreground_pixels a \<and>
        length (bg_embedding_a tp) = background_pixels a"
    using pool_lengths[OF tp assms(1)] fg[OF assms(8)] fg[OF assms(9)] fg[OF assms(10)]
    by (simp add: background_pixels_def)
  with tp show ?thesis by blast
qed

text \<open>The same at the concrete run.\<close>

theorem pool_cardinality_witness:
  "create_triplet_pools ex_sample ex_embeddings = Inr (Some ex_pools) \<and>
   length (fg_positive_pool ex_pools) = 2 \<and> length (bg_positive_pool ex_pools) = 6 \<and>
   length (fg_embedding_a ex_pools) = 1 \<and> length (bg_embedding_a ex_pools) = 3"
proof -
  note inst = pool_cardinality[OF ex_sample_valid(1,2,5,3,4,6,7) ex_sample_valid(12,13,14)
      ex_sample_valid(8,9,10,11)]
  have "create_triplet_pools ex_sample
          ([[[10, 11], [12, 13]], [[20, 21], [22, 23]]],
           [[[30, 31], [32, 33]], [[40, 41], [42, 43]]],
           [[[50, 51], [52, 53]], [[60, 61], [62, 63]]]) = Inr (Some ex_pools)"
    using ex_sample_pools by (simp add: ex_embeddings_def)
  with inst show ?thesis
    by (auto simp: ex_embeddings_def foreground_pixels_def background_pixels_def)
qed

text \<open>
  Claim C5: on every valid input the pool mask and the pooled embedding field that
  \<open>create_triplet_pools\<close> builds from frames 1 and 2 both have the height of the frames
  and the sum of their widths; at every coordinate of the combined field the vector read
  is the one of frame 1 at the same coordinate when the column lies below the width of
  frame 1, and otherwise the one of frame 2 at the column reduced by that width, and the
  mask entries decompose in the same way. The pools the builder returns are gathered
  from exactly these two tensors: the foreground (background) positive pool holds, in
  row-major order of the combined grid, the per-frame vectors at the coordinates whose
  per-frame mask entry is non-zero (zero). So frame 1 comes first, and mask and field are
  joined along the same spatial axis.
\<close>

theorem concatenation_correct:
  assumes "annotation smp = (a, f1, f2)"
    and "has_shape2 a h w" "has_shape3 ea d h w"
    and "has_shape2 f1 h w1" "has_shape2 f2 h w2"
    and "has_shape3 e1 d h w1" "has_shape3 e2 d h w2"
    and "nonzero a \<noteq> []" "nonzero (eq_zero a) \<noteq> []"
      "nonzero (map2 (@) f1 f2) \<noteq> []" "nonzero (eq_zero (map2 (@) f1 f2)) \<noteq> []"
  shows "\<exists>m e tp.
           cat_dim1 f1 f2 = Inr m \<and> cat_dim2 e1 e2 = Inr e \<and>
           has_shape2 m h (w1 + w2) \<and> has_shape3 e d h (w1 + w2) \<and>
           (\<forall>x y. x < h \<and> y < w1 + w2 \<longrightarrow>
              m ! x ! y = (if y < w1 then f1 ! x ! y else f2 ! x ! (y - w1)) \<and>
              at_xy e (x, y) = (if y < w1 then at_xy e1 (x, y) else at_xy e2 (x, y - w1)) \<and>
              at_xy e (x, y) = Inr (pool_vector_at e1 e2 w1 (x, y))) \<and>
           create_triplet_pools smp (ea, e1, e2) = Inr (Some tp) \<and>
           gather e (nonzero m) = Inr (fg_positive_pool tp) \<and>
           gather e (nonzero (eq_zero m)) = Inr (bg_positive_pool tp) \<and>
           fg_positive_pool tp =
             map (pool_vector_at e1 e2 w1)
               (filter (\<lambda>p. pool_mask_at f1 f2 w1 p \<noteq> 0) (coords h (w1 + w2))) \<and>
           bg_positive_pool tp =
             map (pool_vector_at e1 e2 w1)
               (filter (\<lambda>p. pool_mask_at f1 f2 w1 p = 0) (coords h (w1 + w2)))"
proof -
  let ?m = "map2 (@) f1 f2" and ?e = "map2 (map2 (@)) e1 e2"
  let ?tp = "\<lparr>fg_embedding_a = vectors_at ea (nonzero a),
        fg_positive_pool = vectors_at ?e (nonzero ?m),
        fg_negative_pool = vectors_at ?e (nonzero (eq_zero ?m)),
        bg_embedding_a = vectors_at ea (nonzero (eq_zero a)),
        bg_positive_pool = vectors_at ?e (nonzero (eq_zero ?m)),
        bg_negative_pool = vectors_at ?e (nonzero ?m)\<rparr>"
  have m: "cat_dim1 f1 f2 = Inr ?m" "has_shape2 ?m h (w1 + w2)"
    using cat_dim1_shape[OF assms(4,5)] by simp_all
  have e: "cat_dim2 e1 e2 = Inr ?e" "has_shape3 ?e d h (w1 + w2)"
    using cat_dim2_shape[OF assms(6,7)] by simp_all
  have pt: "?m ! x ! y = (if y < w1 then f1 ! x ! y else f2 ! x ! (y - w1)) \<and>
            at_xy ?e (x, y) = (if y < w1 then at_xy e1 (x, y) else at_xy e2 (x, y - w1)) \<and>
            at_xy ?e (x, y) = Inr (pool_vector_at e1 e2 w1 (x, y))"
    if "x < h" "y < w1 + w2" for x y
    using cat_dim1_nth[OF assms(4,5) that(1), of y] cat_dim2_at_xy[OF assms(6,7) that]
      at_xy_in_range[OF assms(6) that(1), of y] at_xy_in_range[OF assms(7) that(1), of "y - w1"]
      that(2)
    by (auto simp: pool_vector_at_def)
  have tp: "create_triplet_pools smp (ea, e1, e2) = Inr (Some ?tp)"
    by (rule create_triplet_pools_valid[OF assms])
  have g: "gather ?e (nonzero ?m) = Inr (fg_positive_pool ?tp)"
    "gather ?e (nonzero (eq_zero ?m)) = Inr (bg_positive_pool ?tp)"
    using gather_in_range[OF e(2) nonzero_in_range(1)[OF m(2)] assms(10)]
      gather_in_range[OF e(2) nonzero_in_range(2)[OF m(2)] assms(11)]
    by simp_all
  have dec: "fg_positive_pool ?tp =
             map (pool_vector_at e1 e2 w1)
               (filter (\<lambda>p. pool_mask_at f1 f2 w1 p \<noteq> 0) (coords h (w1 + w2)))"
    "bg_positive_pool ?tp =
             map (pool_vector_at e1 e2 w1)
               (filter (\<lambda>p. pool_mask_at f1 f2 w1 p = 0) (coords h (w1 + w2)))"
    using pool_vectors_decompose[OF assms(4-7)] by simp_all
  show ?thesis
    using m e pt tp g dec by blast
qed

text \<open>The same at the concrete run.\<close>

theorem concatenation_correct_witness:
  "create_triplet_pools ex_sample ex_embeddings = Inr (Some ex_pools) \<and>
   fg_positive_pool ex_pools =
     map (pool_vector_at [[[30, 31], [32, 33]], [[40, 41], [42, 43]]]
            [[[50, 51], [52, 53]], [[60, 61], [62, 63]]] 2)
       (filter (\<lambda>p. pool_mask_at [[0, 1], [0, 0]] [[0, 0], [1, 0]] 2 p \<noteq> 0) (coords 2 (2 + 2))) \<and>
   bg_positive_pool ex_pools =
     map (pool_vector_at [[[30, 31], [32, 33]], [[40, 41], [42, 43]]]
            [[[50, 51], [52, 53]], [[60, 61], [62, 63]]] 2)
       (filter (\<lambda>p. pool_mask_at [[0, 1], [0, 0]] [[0, 0], [1, 0]] 2 p = 0) (coords 2 (2 + 2))) \<and>
   fg_positive_pool ex_pools = [[31, 41], [52, 62]]"
proof -
  note inst = concatenation_correct[OF ex_sample_valid(1,2,5,3,4,6,7) ex_sample_valid(8,9,10,11)]
  have "create_triplet_pools ex_sample
          ([[[10, 11], [12, 13]], [[20, 21], [22, 23]]],
           [[[30, 31], [32, 33]], [[40, 41], [42, 43]]],
           [[[50, 51], [52, 53]], [[60, 61], [62, 63]]]) = Inr (Some ex_pools)"
    using ex_sample_pools by (simp add: ex_embeddings_def)
  moreover have "fg_positive_pool ex_pools = [[31, 41], [52, 62]]"
    by (simp add: ex_pools_def)
  ultimately show ?thesis
    using inst by (auto simp: ex_embeddings_def)
qed

text \<open>
  Claim C6: a training sample for which the pool builder returns \<open>None\<close> is skipped
  entirely. The iteration ends with \<^verbatim>\<open>continue\<close>, and the state after it is the
  state before it with the debug trace appended: the network, the optimizer, both loss
  accumulators and the meter are the same, and no loss evaluation, optimizer step,
  logging or checkpoint took place. The loop goes on with the next sample from that
  state.
\<close>

theorem skip_does_not_mutate:
  assumes "create_triplet_pools smp (forward c (model st) (image smp)) = Inr None"
  shows "train_iteration c dev log_interval checkpoint_interval epoch idx smp st =
           (st\<lparr>events := events st @ [Skipping_iteration (idx + 1)]\<rparr>, Continue) \<and>
         train_loop c dev log_interval checkpoint_interval epoch idx (smp # rest) st =
           train_loop c dev log_interval checkpoint_interval epoch (Suc idx) rest
             (st\<lparr>events := events st @ [Skipping_iteration (idx + 1)]\<rparr>)"
  using skip_iteration[OF assms] by simp

text \<open>The same at the concrete run.\<close>

theorem skip_does_not_mutate_witness:
  "train_iteration ex_collaborators Cpu 1 1 0 0 ex_degenerate_sample ex_state =
     (ex_state\<lparr>events := events ex_state @ [Skipping_iteration (0 + 1)]\<rparr>, Continue)"
  using skip_does_not_mutate[of ex_degenerate_sample ex_collaborators ex_state Cpu 1 1 0 0 "[]"]
    ex_degenerate_pools
  by (simp add: ex_collaborators_def)

text \<open>
  Claim C7, amended: for a data source of \<open>N\<close> samples, a cap \<open>k\<close> with
  \<open>0 \<le> k < N\<close>, a non-zero log interval, and pools yielded by each of the samples at
  indices \<open>0\<close> to \<open>k\<close>, the validation loop evaluates exactly the samples at indices
  \<open>0\<close> to \<open>k\<close> and then leaves by \<^verbatim>\<open>break\<close>.
\<close>

theorem validation_cap:
  assumes "log_interval \<noteq> 0" "0 \<le> k" "k < int (length data_loader)"
    and "list_all (yields_pools c (net_eval (model st))) (take (nat k + 1) data_loader)"
  shows "snd (validate epoch data_loader c log_interval k st) = Break \<and>
         evaluated (events (fst (validate epoch data_loader c log_interval k st))) =
           evaluated (events st) @ [0..<nat k + 1]"
  unfolding validate_def
  using validate_loop_cap[OF assms(1), of 0 k data_loader c
      "st\<lparr>model := net_eval (model st), agg_fg_loss := 0, agg_bg_loss := 0\<rparr>" epoch] assms(2-4)
  by simp

text \<open>The same at the concrete run.\<close>

theorem validation_cap_witness:
  "snd (validate 0 [ex_sample, ex_sample, ex_degenerate_sample] ex_collaborators 10 1 ex_state) = Break \<and>
   evaluated (events (fst (validate 0 [ex_sample, ex_sample, ex_degenerate_sample] ex_collaborators
     10 1 ex_state))) = [0, 1]"
  using validation_cap[of 10 1 "[ex_sample, ex_sample, ex_degenerate_sample]" ex_collaborators
      ex_state 0] ex_sample_yields
  by (simp add: ex_state_def upt_rec)

text \<open>
  Claim C7 as stated, for every data source and every setting, fails: with two samples,
  cap 1 and a log interval of 0 the loop leaves with a \<^verbatim>\<open>ZeroDivisionError\<close>
  after the first sample; and with a degenerate sample at index 0 it leaves with a
  \<^verbatim>\<open>TypeError\<close> before evaluating anything.
\<close>

theorem validation_cap_counterexample:
  "snd (validate 0 [ex_sample, ex_sample] ex_collaborators 0 1 ex_state) = Raised ZeroDivisionError \<and>
   evaluated (events (fst (validate 0 [ex_sample, ex_sample] ex_collaborators 0 1 ex_state))) = [0] \<and>
   snd (validate 0 [ex_degenerate_sample, ex_sample] ex_collaborators 10 1 ex_state) = Raised TypeError \<and>
   evaluated (events (fst (validate 0 [ex_degenerate_sample, ex_sample] ex_collaborators 10 1
     ex_state))) = []"
  by code_simp

text \<open>
  Claim C8, amended: for a data source of \<open>N\<close> samples and a cap \<open>k \<ge> N\<close>, or the
  default cap \<open>-1\<close>, the early-break condition of the validation loop never fires; and
  if moreover the log interval is non-zero and every sample yields pools, the loop
  exhausts the data source, evaluating all \<open>N\<close> samples.
\<close>

theorem validation_exhausts:
  assumes "int (length data_loader) \<le> k \<or> k = default_num_val_samples"
  shows "snd (validate epoch data_loader c log_interval k st) \<noteq> Break \<and>
         (log_interval \<noteq> 0 \<and> list_all (yields_pools c (net_eval (model st))) data_loader \<longrightarrow>
            snd (validate epoch data_loader c log_interval k st) = Next \<and>
            evaluated (events (fst (validate epoch data_loader c log_interval k st))) =
              evaluated (events st) @ [0..<length data_loader])"
proof -
  let ?st = "st\<lparr>model := net_eval (model st), agg_fg_loss := 0, agg_bg_loss := 0\<rparr>"
  have range: "k < int 0 \<or> int 0 + int (length data_loader) \<le> k"
    using assms by (auto simp: default_num_val_samples_def)
  have nb: "snd (validate_loop c log_interval k epoch 0 data_loader ?st) \<noteq> Break"
    by (rule validate_loop_no_break[OF range])
  have ex: "snd (validate_loop c log_interval k epoch 0 data_loader ?st) = Next \<and>
            evaluated (events (fst (validate_loop c log_interval k epoch 0 data_loader ?st))) =
              evaluated (events ?st) @ [0..<0 + length data_loader]"
    if "log_interval \<noteq> 0" "list_all (yields_pools c (net_eval (model st))) data_loader"
    using validate_loop_exhausts[OF that(1) range, of c ?st epoch] that(2) by simp
  show ?thesis
    unfolding validate_def using nb ex by simp
qed

text \<open>The same at the concrete run.\<close>

theorem validation_exhausts_witness:
  "snd (validate 0 [ex_sample, ex_sample] ex_collaborators 10 5 ex_state) = Next \<and>
   evaluated (events (fst (validate 0 [ex_sample, ex_sample] ex_collaborators 10 5 ex_state))) =
     [0, 1]"
  using validation_exhausts[of "[ex_sample, ex_sample]" 5 0 ex_collaborators 10 ex_state]
    ex_sample_yields
  by (simp add: ex_state_def upt_rec)

text \<open>
  Claim C8 as stated fails in its second half: with cap 2 on two samples and a log
  interval of 0, and with the default cap on a data source that starts with a degenerate
  sample, the loop is left by an exception before the data source is exhausted.
\<close>

theorem validation_exhausts_counterexample:
  "snd (validate 0 [ex_sample, ex_sample] ex_collaborators 0 2 ex_state) = Raised ZeroDivisionError \<and>
   evaluated (events (fst (validate 0 [ex_sample, ex_sample] ex_collaborators 0 2 ex_state))) = [0] \<and>
   snd (validate 0 [ex_degenerate_sample, ex_sample] ex_collaborators 10 default_num_val_samples
     ex_state) = Raised TypeError \<and>
   evaluated (events (fst (validate 0 [ex_degenerate_sample, ex_sample] ex_collaborators 10
     default_num_val_samples ex_state))) = []"
  by code_simp

text \<open>
  Claim C9, amended: after every checkpoint save of the training loop the network is in
  training mode, with its feature-extraction layers frozen, on the configured device and
  with its parameters unchanged; and this is the state it had before the save whenever
  it was in training mode, frozen and on that device before.
\<close>

theorem checkpoint_returns_to_training:
  "training (model (save_checkpoint dev epoch idx st)) \<and>
   feature_extraction_frozen (model (save_checkpoint dev epoch idx st)) \<and>
   on_device (model (save_checkpoint dev epoch idx st)) = dev \<and>
   weights (model (save_checkpoint dev epoch idx st)) = weights (model st) \<and>
   (training (model st) \<and> feature_extraction_frozen (model st) \<and> on_device (model st) = dev \<longrightarrow>
      model (save_checkpoint dev epoch idx st) = model st)"
  by (simp add: save_checkpoint_model)

text \<open>The same at the concrete run.\<close>

theorem checkpoint_returns_to_training_witness:
  "model (save_checkpoint Cpu 0 0 ex_state) = model ex_state"
  using checkpoint_returns_to_training[of Cpu 0 0 ex_state]
  by (simp add: ex_state_def prepare_model_def freeze_feature_extraction_def net_train_def
      net_to_def)

text \<open>
  Claim C9 as stated, that the save returns the network to the state it had before,
  fails at the first save of a second epoch: \<open>validate\<close> has left the network in
  evaluation mode, the training loop does not change the mode before its checkpoint
  block, and the block then leaves the network in training mode.
\<close>

theorem checkpoint_counterexample:
  "train 1 [ex_sample] ex_collaborators Cpu 1 1 ex_after_first_epoch =
     (save_checkpoint Cpu 1 0 ex_pre_save_state, Next) \<and>
   training (model ex_pre_save_state) = False \<and>
   on_device (model ex_pre_save_state) = Cpu \<and>
   feature_extraction_frozen (model ex_pre_save_state) = True \<and>
   training (model (save_checkpoint Cpu 1 0 ex_pre_save_state)) = True \<and>
   model (save_checkpoint Cpu 1 0 ex_pre_save_state) \<noteq> model ex_pre_save_state"
proof -
  have a: "train 1 [ex_sample] ex_collaborators Cpu 1 1 ex_after_first_epoch =
     (save_checkpoint Cpu 1 0 ex_pre_save_state, Next)"
    by code_simp
  have b: "training (model ex_pre_save_state) = False"
    "on_device (model ex_pre_save_state) = Cpu"
    "feature_extraction_frozen (model ex_pre_save_state) = True"
    by code_simp+
  have c: "training (model (save_checkpoint Cpu 1 0 ex_pre_save_state)) = True"
    by (simp add: save_checkpoint_model)
  from b(1) c have "model (save_checkpoint Cpu 1 0 ex_pre_save_state) \<noteq> model ex_pre_save_state"
    by auto
  with a b c show ?thesis by simp
qed

text \<open>
  Claim C10: neither loop feeds the loss meter. After training, after validation and
  after any number of epochs the meter is the one the run started with, and every
  scalar handed to the summary writer under \<^verbatim>\<open>train_loss\<close> or
  \<^verbatim>\<open>val_loss\<close> during the run is the reading of that initial meter, whatever the
  loss functions \<open>lf\<close> and \<open>vl\<close> compute.
\<close>

theorem loss_meter_never_fed:
  "loss_meter (fst (train epoch train_data (c\<lparr>loss_fn := lf\<rparr>) dev log_interval
     checkpoint_interval st)) = loss_meter st \<and>
   set (meter_scalars (events (fst (train epoch train_data (c\<lparr>loss_fn := lf\<rparr>) dev log_interval
     checkpoint_interval st))))
     \<subseteq> insert (meter_value c (loss_meter st)) (set (meter_scalars (events st))) \<and>
   loss_meter (fst (validate epoch val_data (c\<lparr>val_loss := vl\<rparr>) log_interval k st)) =
     loss_meter st \<and>
   set (meter_scalars (events (fst (validate epoch val_data (c\<lparr>val_loss := vl\<rparr>) log_interval k
     st))))
     \<subseteq> insert (meter_value c (loss_meter st)) (set (meter_scalars (events st))) \<and>
   loss_meter (fst (run_epochs (c\<lparr>loss_fn := lf, val_loss := vl\<rparr>) dev log_interval
     checkpoint_interval k train_loader val_loader 0 num_epochs st)) = loss_meter st \<and>
   set (meter_scalars (events (fst (run_epochs (c\<lparr>loss_fn := lf, val_loss := vl\<rparr>) dev
     log_interval checkpoint_interval k train_loader val_loader 0 num_epochs st))))
     \<subseteq> insert (meter_value c (loss_meter st)) (set (meter_scalars (events st)))"
  using train_meter[of epoch train_data "c\<lparr>loss_fn := lf\<rparr>" dev log_interval checkpoint_interval st]
    validate_meter[of epoch val_data "c\<lparr>val_loss := vl\<rparr>" log_interval k st]
    run_epochs_meter[of "c\<lparr>loss_fn := lf, val_loss := vl\<rparr>" dev log_interval
      checkpoint_interval k train_loader val_loader 0 num_epochs st]
  by simp

text \<open>The same at the concrete run.\<close>

theorem loss_meter_never_fed_witness:
  "set (meter_scalars (events (fst (run_epochs
      (ex_collaborators\<lparr>loss_fn := (\<lambda>a p n. 1000), val_loss := (\<lambda>a p n. 2000)\<rparr>) Cpu 1 1 10
      (\<lambda>epoch. [ex_sample]) (\<lambda>epoch. [ex_sample]) 0 2 ex_state)))) \<subseteq> {7} \<and>
   meter_scalars (events ex_after_first_epoch) = [7, 7]"
proof -
  have "meter_scalars (events ex_after_first_epoch) = [7, 7]"
    by code_simp
  then show ?thesis
    using loss_meter_never_fed[where c = ex_collaborators and lf = "\<lambda>a p n. 1000"
        and vl = "\<lambda>a p n. 2000" and dev = Cpu and log_interval = 1 and checkpoint_interval = 1
        and k = 10 and st = ex_state and epoch = 0 and train_data = "[]" and val_data = "[]"
        and train_loader = "\<lambda>epoch. [ex_sample]" and val_loader = "\<lambda>epoch. [ex_sample]"
        and num_epochs = 2]
    by (simp add: ex_state_def ex_collaborators_def)
qed

end
